theory Spec2Isabelle
  imports Main "HOL-Library.Char_ord" "HOL-Library.List_Lexorder" "HOL-Library.Product_Lexorder"
begin

section \<open>The Mishnah ingestion notebook: fetching, row assembly, cleaning, documents\<close>

text \<open>
  The notebook \<^verbatim>\<open>chumash_embedding_model.ipynb\<close> downloads the tractates of the
  Mishnah from a text service, flattens the nested arrays it receives into rows,
  cleans the text column with pandas, and groups the rows into one document per
  (tractate, chapter). Those four steps are plain Python and are embedded here.
  Embedding, retrieval, chat memory and generation are calls into the llama-index
  library; the notebook only configures them, so they have no definition below.
\<close>

subsection \<open>Decoded JSON values and Python exceptions\<close>

text \<open>
  What \<^verbatim>\<open>response.json()\<close> may return: any decoded JSON value. A JSON object is
  kept as the list of its items in order, a Python \<^verbatim>\<open>dict\<close>. A number is kept as
  an integer: the cells only ask whether it is zero and never compute with it.
\<close>

datatype json =
    JNull
  | JBool bool
  | JNum int
  | JStr string
  | JArr "json list"
  | JObj "(string \<times> json) list"

text \<open>
  The exceptions that can occur in the modelled cells. The first three are
  subclasses of \<^verbatim>\<open>requests.exceptions.RequestException\<close>: a transport failure raised
  by \<^verbatim>\<open>requests.get\<close>, the \<^verbatim>\<open>HTTPError\<close> of \<^verbatim>\<open>raise_for_status\<close>, and the
  \<^verbatim>\<open>JSONDecodeError\<close> of \<^verbatim>\<open>response.json()\<close> (a \<^verbatim>\<open>RequestException\<close> in the
  current \<^verbatim>\<open>requests\<close>, which the notebook installs with \<^verbatim>\<open>pip install -U\<close>).
  \<^verbatim>\<open>AttributeError\<close> and \<^verbatim>\<open>TypeError\<close> are what Python raises when \<^verbatim>\<open>.get\<close> is
  called on a value that is not a dict and when a value that is not iterable is
  enumerated.
\<close>

datatype exn =
    ConnectionError
  | HTTPError nat
  | JSONDecodeError
  | AttributeError
  | TypeError

fun is_RequestException :: "exn \<Rightarrow> bool" where
  "is_RequestException ConnectionError = True"
| "is_RequestException (HTTPError status) = True"
| "is_RequestException JSONDecodeError = True"
| "is_RequestException AttributeError = False"
| "is_RequestException TypeError = False"

text \<open>
  The text service, as \<^verbatim>\<open>requests.get(url, params=...)\<close> sees it (the parameters
  are the same in every call): either the request itself fails, or a response
  arrives with a status code and a body, the body given as its decoded JSON
  value when it is valid JSON.
\<close>

datatype http_result =
    Transport_Failure
  | Response nat "json option"

type_synonym service = "string \<Rightarrow> http_result"

subsection \<open>\<^verbatim>\<open>MishnahFetcher\<close>\<close>

record MishnahFetcher =
  mishnah_tractates :: "string list"

definition MishnahFetcher_init :: MishnahFetcher where
  "MishnahFetcher_init = \<lparr>mishnah_tractates =
     [''Berakhot'', ''Peah'', ''Demai'', ''Kilayim'', ''Sheviit'', ''Terumot'', ''Maasrot'',
      ''Maaser Sheni'', ''Challah'', ''Orlah'', ''Bikkurim'',
      ''Shabbat'', ''Eruvin'', ''Pesachim'', ''Shekalim'', ''Yoma'', ''Sukkah'', ''Beitzah'',
      ''Rosh Hashanah'', ''Taanit'', ''Megillah'', ''Moed Katan'', ''Chagigah'',
      ''Yevamot'', ''Ketubot'', ''Nedarim'', ''Nazir'', ''Sotah'', ''Gittin'', ''Kiddushin'',
      ''Bava Kamma'', ''Bava Metzia'', ''Bava Batra'', ''Sanhedrin'', ''Makkot'', ''Shevuot'',
      ''Eduyot'', ''Avodah Zarah'', ''Avot'', ''Horayot'',
      ''Zevachim'', ''Menachot'', ''Chullin'', ''Bekhorot'', ''Arakhin'', ''Temurah'',
      ''Keritot'', ''Meilah'', ''Tamid'', ''Middot'', ''Kinnim'',
      ''Kelim'', ''Oholot'', ''Negaim'', ''Parah'', ''Tohorot'', ''Mikvaot'', ''Niddah'',
      ''Makhshirin'', ''Zavim'', ''Tevul Yom'', ''Yadayim'', ''Oktzin'']\<rparr>"

definition raise_for_status :: "nat \<Rightarrow> exn + unit" where
  "raise_for_status status =
     (if 400 \<le> status \<and> status < 600 then Inl (HTTPError status) else Inr ())"

definition response_json :: "json option \<Rightarrow> exn + json" where
  "response_json body = (case body of None \<Rightarrow> Inl JSONDecodeError | Some data \<Rightarrow> Inr data)"

text \<open>\<^verbatim>\<open>data.get(key, default)\<close>: a dict method; any other value has no \<^verbatim>\<open>get\<close>.\<close>

definition dict_get :: "json \<Rightarrow> string \<Rightarrow> json \<Rightarrow> exn + json" where
  "dict_get data k dflt =
     (case data of
        JObj items \<Rightarrow> Inr (case map_of items k of None \<Rightarrow> dflt | Some v \<Rightarrow> v)
      | _ \<Rightarrow> Inl AttributeError)"

definition tractate_url :: "string \<Rightarrow> string" where
  "tractate_url tractate_name =
     (let api_tractate_name = ''Mishnah_'' @ tractate_name
      in ''https://www.sefaria.org/api/texts/'' @ api_tractate_name)"

text \<open>The body of the \<^verbatim>\<open>try\<close> block of \<^verbatim>\<open>get_mishnah_tractate_text\<close>.\<close>

definition try_fetch :: "service \<Rightarrow> string \<Rightarrow> exn + json" where
  "try_fetch svc url =
     (case svc url of
        Transport_Failure \<Rightarrow> Inl ConnectionError
      | Response status body \<Rightarrow>
          (case raise_for_status status of
             Inl e \<Rightarrow> Inl e
           | Inr _ \<Rightarrow>
               (case response_json body of
                  Inl e \<Rightarrow> Inl e
                | Inr data \<Rightarrow> dict_get data ''text'' (JArr []))))"

text \<open>
  The \<^verbatim>\<open>except requests.exceptions.RequestException\<close> clause returns \<^verbatim>\<open>[]\<close>; any
  other exception leaves the method.
\<close>

definition get_mishnah_tractate_text :: "service \<Rightarrow> string \<Rightarrow> exn + json" where
  "get_mishnah_tractate_text svc tractate_name =
     (case try_fetch svc (tractate_url tractate_name) of
        Inr chapters \<Rightarrow> Inr chapters
      | Inl e \<Rightarrow> if is_RequestException e then Inr (JArr []) else Inl e)"

text \<open>
  \<^verbatim>\<open>all_texts[tractate] = ...\<close> on a Python dict: a present key keeps its place
  and gets the new value, a new key goes to the end.
\<close>

fun dict_set :: "(string \<times> 'v) list \<Rightarrow> string \<Rightarrow> 'v \<Rightarrow> (string \<times> 'v) list" where
  "dict_set [] k v = [(k, v)]"
| "dict_set ((k', v') # d) k v =
     (if k' = k then (k', v) # d else (k', v') # dict_set d k v)"

fun fetch_loop ::
  "service \<Rightarrow> string list \<Rightarrow> (string \<times> json) list \<Rightarrow> exn + (string \<times> json) list" where
  "fetch_loop svc [] all_texts = Inr all_texts"
| "fetch_loop svc (tractate # rest) all_texts =
     (case get_mishnah_tractate_text svc tractate of
        Inl e \<Rightarrow> Inl e
      | Inr chapters \<Rightarrow> fetch_loop svc rest (dict_set all_texts tractate chapters))"

definition get_all_mishnah_texts ::
  "MishnahFetcher \<Rightarrow> service \<Rightarrow> exn + (string \<times> json) list" where
  "get_all_mishnah_texts self svc = fetch_loop svc (mishnah_tractates self) []"

definition fetcher :: MishnahFetcher where
  "fetcher = MishnahFetcher_init"

subsection \<open>Flattening the nested arrays into rows\<close>

text \<open>Python's truth value of a decoded JSON value (\<^verbatim>\<open>not chapters\<close>).\<close>

fun truthy :: "json \<Rightarrow> bool" where
  "truthy JNull = False"
| "truthy (JBool b) = b"
| "truthy (JNum n) = (n \<noteq> 0)"
| "truthy (JStr s) = (s \<noteq> [])"
| "truthy (JArr xs) = (xs \<noteq> [])"
| "truthy (JObj items) = (items \<noteq> [])"

fun isinstance_list :: "json \<Rightarrow> bool" where
  "isinstance_list (JArr xs) = True"
| "isinstance_list _ = False"

text \<open>
  Iterating a value, as \<^verbatim>\<open>enumerate\<close> does: a list gives its elements, a string
  its characters, a dict its keys; \<^verbatim>\<open>None\<close>, booleans and numbers raise
  \<^verbatim>\<open>TypeError\<close>.
\<close>

fun py_iter :: "json \<Rightarrow> exn + json list" where
  "py_iter (JArr xs) = Inr xs"
| "py_iter (JStr s) = Inr (map (\<lambda>c. JStr [c]) s)"
| "py_iter (JObj items) = Inr (map (\<lambda>item. JStr (fst item)) items)"
| "py_iter JNull = Inl TypeError"
| "py_iter (JBool b) = Inl TypeError"
| "py_iter (JNum n) = Inl TypeError"

text \<open>\<^verbatim>\<open>enumerate(xs, start)\<close>.\<close>

definition py_enumerate :: "'a list \<Rightarrow> nat \<Rightarrow> (nat \<times> 'a) list" where
  "py_enumerate xs start = zip [start..<start + length xs] xs"

text \<open>
  A \<^verbatim>\<open>for\<close> loop whose body appends to one list: the pieces in order, or the
  first exception.
\<close>

fun for_each :: "('a \<Rightarrow> exn + 'b list) \<Rightarrow> 'a list \<Rightarrow> exn + 'b list" where
  "for_each body [] = Inr []"
| "for_each body (x # xs) =
     (case body x of
        Inl e \<Rightarrow> Inl e
      | Inr ys \<Rightarrow> (case for_each body xs of Inl e \<Rightarrow> Inl e | Inr zs \<Rightarrow> Inr (ys @ zs)))"

type_synonym raw_row = "string \<times> nat \<times> nat \<times> json"

definition chapter_rows :: "string \<Rightarrow> nat \<times> json \<Rightarrow> exn + raw_row list" where
  "chapter_rows tractate ic =
     (case py_iter (snd ic) of
        Inl e \<Rightarrow> Inl e
      | Inr units \<Rightarrow>
          Inr (map (\<lambda>(mishnah_idx, mishnah). (tractate, fst ic, mishnah_idx, mishnah))
                 (py_enumerate units 1)))"

definition tractate_rows :: "string \<times> json \<Rightarrow> exn + raw_row list" where
  "tractate_rows tc =
     (if \<not> truthy (snd tc) \<or> \<not> isinstance_list (snd tc) then Inr []
      else case py_iter (snd tc) of
             Inl e \<Rightarrow> Inl e
           | Inr chapters \<Rightarrow> for_each (chapter_rows (fst tc)) (py_enumerate chapters 1))"

definition build_rows :: "(string \<times> json) list \<Rightarrow> exn + raw_row list" where
  "build_rows texts = for_each tractate_rows texts"

subsection \<open>The DataFrame and its cleaning\<close>

text \<open>
  A row of \<^verbatim>\<open>df_mishnah\<close>. After the cleaning the text column holds a string or
  the missing value \<^verbatim>\<open>NaN\<close> (\<open>None\<close> here).
\<close>

record df_row =
  col_tractate :: string
  col_chapter :: nat
  col_mishnah :: nat
  col_text :: "string option"

text \<open>
  \<^verbatim>\<open>astype(str)\<close> leaves a string as it is and replaces any other value by its
  Python \<^verbatim>\<open>str\<close>, which is taken as the parameter \<open>py_str\<close>.
\<close>

definition astype_str :: "(json \<Rightarrow> string) \<Rightarrow> json \<Rightarrow> string" where
  "astype_str py_str v = (case v of JStr s \<Rightarrow> s | _ \<Rightarrow> py_str v)"

text \<open>
  \<^verbatim>\<open>s.split(sep)\<close> for a separator of one character: \<open>cur\<close> is the piece being
  read.
\<close>

fun split_from :: "char \<Rightarrow> string \<Rightarrow> string \<Rightarrow> string list" where
  "split_from sep cur [] = [cur]"
| "split_from sep cur (c # cs) =
     (if c = sep then cur # split_from sep [] cs else split_from sep (cur @ [c]) cs)"

definition str_split :: "string \<Rightarrow> char \<Rightarrow> string list" where
  "str_split s sep = split_from sep [] s"

text \<open>\<^verbatim>\<open>.str[i]\<close>: the element, or \<^verbatim>\<open>NaN\<close> when the list is too short.\<close>

definition str_get :: "string list \<Rightarrow> nat \<Rightarrow> string option" where
  "str_get pieces i = (if i < length pieces then Some (pieces ! i) else None)"

definition clean_text :: "(json \<Rightarrow> string) \<Rightarrow> json \<Rightarrow> string option" where
  "clean_text py_str v = str_get (str_split (astype_str py_str v) (CHR ''<'')) 0"

definition clean_column :: "(json \<Rightarrow> string) \<Rightarrow> raw_row list \<Rightarrow> df_row list" where
  "clean_column py_str rows =
     map (\<lambda>(tractate, chapter_idx, mishnah_idx, mishnah).
            \<lparr>col_tractate = tractate, col_chapter = chapter_idx, col_mishnah = mishnah_idx,
             col_text = clean_text py_str mishnah\<rparr>) rows"

text \<open>\<^verbatim>\<open>dropna\<close>: the rows with a missing value go; only the text can be missing.\<close>

definition dropna :: "df_row list \<Rightarrow> df_row list" where
  "dropna df = filter (\<lambda>r. col_text r \<noteq> None) df"

definition df_mishnah :: "(json \<Rightarrow> string) \<Rightarrow> raw_row list \<Rightarrow> df_row list" where
  "df_mishnah py_str rows = dropna (clean_column py_str rows)"

subsection \<open>Documents\<close>

record metadata =
  md_tractate :: string
  md_chapter :: nat

record Document =
  doc_text :: string
  doc_metadata :: metadata

definition group_key :: "df_row \<Rightarrow> string \<times> nat" where
  "group_key r = (col_tractate r, col_chapter r)"

text \<open>
  \<^verbatim>\<open>df.groupby(['tractate', 'chapter'])\<close>: one group per key, the keys in sorted
  order, the rows of a group in the order of the frame.
\<close>

definition groupby :: "df_row list \<Rightarrow> ((string \<times> nat) \<times> df_row list) list" where
  "groupby df =
     map (\<lambda>k. (k, filter (\<lambda>r. group_key r = k) df)) (sort (remdups (map group_key df)))"

text \<open>\<^verbatim>\<open>str(n)\<close> of a natural number, in decimal.\<close>

definition digit_char :: "nat \<Rightarrow> char" where
  "digit_char d = char_of (48 + d)"

fun str_nat :: "nat \<Rightarrow> string" where
  "str_nat n = (if n < 10 then [digit_char n] else str_nat (n div 10) @ [digit_char (n mod 10)])"

declare str_nat.simps [simp del]

fun str_join :: "string \<Rightarrow> string list \<Rightarrow> string" where
  "str_join sep [] = []"
| "str_join sep [x] = x"
| "str_join sep (x # y # ys) = x @ sep @ str_join sep (y # ys)"

text \<open>
  The f-string \<^verbatim>\<open>f"Mishnah {r['mishnah']}: {r['text']}"\<close>; a missing text would be
  formatted as \<^verbatim>\<open>nan\<close>.
\<close>

definition row_line :: "df_row \<Rightarrow> string" where
  "row_line r =
     ''Mishnah '' @ str_nat (col_mishnah r) @ '': '' @
       (case col_text r of Some s \<Rightarrow> s | None \<Rightarrow> ''nan'')"

definition chapter_text :: "df_row list \<Rightarrow> string" where
  "chapter_text grp = str_join [CHR 0x0A] (map row_line grp)"

definition make_documents :: "df_row list \<Rightarrow> Document list" where
  "make_documents df =
     map (\<lambda>(k, grp).
            \<lparr>doc_text = chapter_text grp,
             doc_metadata = \<lparr>md_tractate = fst k, md_chapter = snd k\<rparr>\<rparr>)
         (groupby df)"

text \<open>The cells in sequence, from the service to the list \<^verbatim>\<open>documents\<close>.\<close>

definition notebook_documents :: "(json \<Rightarrow> string) \<Rightarrow> service \<Rightarrow> exn + Document list" where
  "notebook_documents py_str svc =
     (case get_all_mishnah_texts fetcher svc of
        Inl e \<Rightarrow> Inl e
      | Inr texts \<Rightarrow>
          (case build_rows texts of
             Inl e \<Rightarrow> Inl e
           | Inr rows \<Rightarrow> Inr (make_documents (df_mishnah py_str rows))))"

section \<open>Outcomes, expected results and sample inputs\<close>

subsection \<open>Outcomes of a fetch\<close>

text \<open>
  A fetch fails when the \<^verbatim>\<open>try\<close> block ends in a \<^verbatim>\<open>RequestException\<close>: the transport
  failed, the status is an error status, or the body is not JSON.
\<close>

definition fetch_failed :: "service \<Rightarrow> string \<Rightarrow> bool" where
  "fetch_failed svc tractate_name =
     (case try_fetch svc (tractate_url tractate_name) of
        Inl e \<Rightarrow> is_RequestException e
      | Inr chapters \<Rightarrow> False)"

text \<open>
  The one response the \<^verbatim>\<open>except\<close> clause does not cover: a status that is no error
  and a body that decodes to a value other than a dict, on which \<^verbatim>\<open>data.get\<close> raises
  \<^verbatim>\<open>AttributeError\<close>.
\<close>

fun is_dict :: "json \<Rightarrow> bool" where
  "is_dict (JObj items) = True"
| "is_dict _ = False"

definition body_without_get :: "http_result \<Rightarrow> bool" where
  "body_without_get r =
     (case r of
        Transport_Failure \<Rightarrow> False
      | Response status body \<Rightarrow>
          (case body of
             None \<Rightarrow> False
           | Some data \<Rightarrow> \<not> (400 \<le> status \<and> status < 600) \<and> \<not> is_dict data))"

text \<open>
  A transport or service error, read off the response alone: the request did not
  get through, the status is 4xx or 5xx, or the body is not JSON.
\<close>

definition service_error :: "http_result \<Rightarrow> bool" where
  "service_error r =
     (case r of
        Transport_Failure \<Rightarrow> True
      | Response status body \<Rightarrow> (400 \<le> status \<and> status < 600) \<or> body = None)"

text \<open>
  A response that arrives: no error status, and a body that is a JSON object.
  Its chapters are the value under the key \<^verbatim>\<open>text\<close>, or the empty list when the
  object has no such key.
\<close>

definition arrived :: "http_result \<Rightarrow> bool" where
  "arrived r =
     (case r of
        Transport_Failure \<Rightarrow> False
      | Response status body \<Rightarrow>
          (case body of
             None \<Rightarrow> False
           | Some data \<Rightarrow> \<not> (400 \<le> status \<and> status < 600) \<and> is_dict data))"

definition text_field :: "http_result \<Rightarrow> json" where
  "text_field r =
     (case r of
        Response status (Some (JObj items)) \<Rightarrow>
          (case map_of items ''text'' of None \<Rightarrow> JArr [] | Some v \<Rightarrow> v)
      | _ \<Rightarrow> JArr [])"

subsection \<open>Well-formed chapters and the rows expected from them\<close>

text \<open>
  The row loop enumerates every chapter of a tractate whose text is a non-empty
  list; it runs through when each of these chapters can be iterated.
\<close>

fun iterable :: "json \<Rightarrow> bool" where
  "iterable (JArr xs) = True"
| "iterable (JStr s) = True"
| "iterable (JObj items) = True"
| "iterable _ = False"

definition chapters_iterable :: "json \<Rightarrow> bool" where
  "chapters_iterable chapters =
     (case chapters of JArr chs \<Rightarrow> list_all iterable chs | _ \<Rightarrow> True)"

text \<open>
  The units of a chapter, stated on their own: the elements of an array, the
  characters of a string, the keys of an object; a value of any other kind has
  none.
\<close>

fun units_of :: "json \<Rightarrow> json list" where
  "units_of (JArr xs) = xs"
| "units_of (JStr s) = map (\<lambda>c. JStr [c]) s"
| "units_of (JObj items) = map (\<lambda>item. JStr (fst item)) items"
| "units_of _ = []"

text \<open>
  The rows as the positions in the nested arrays give them: the unit at index \<open>j\<close>
  of the chapter at index \<open>i\<close> of a tractate is the row with chapter \<open>i + 1\<close> and
  mishnah \<open>j + 1\<close>. This is the statement to compare \<open>build_rows\<close> with; it is
  not taken from the loop.
\<close>

definition chapter_block :: "string \<Rightarrow> json list \<Rightarrow> nat \<Rightarrow> raw_row list" where
  "chapter_block t chs i =
     map (\<lambda>j. (t, i + 1, j + 1, units_of (chs ! i) ! j)) [0..<length (units_of (chs ! i))]"

definition rows_by_position :: "(string \<times> json) list \<Rightarrow> raw_row list" where
  "rows_by_position texts =
     concat (map (\<lambda>(t, chapters).
        case chapters of
          JArr chs \<Rightarrow>
            concat (map (\<lambda>i. map (\<lambda>j. (t, i + 1, j + 1, units_of (chs ! i) ! j))
                                  [0..<length (units_of (chs ! i))])
                        [0..<length chs])
        | _ \<Rightarrow> []) texts)"

subsection \<open>The text expected of a document\<close>

text \<open>
  The line of one unit, number first, and the text of a chapter's document:
  the lines of its units in order, joined by a newline. Again a statement to
  compare the code with.
\<close>

definition expected_line :: "(json \<Rightarrow> string) \<Rightarrow> nat \<times> json \<Rightarrow> string" where
  "expected_line py_str iu =
     ''Mishnah '' @ str_nat (fst iu) @ '': '' @
       takeWhile (\<lambda>c. c \<noteq> CHR ''<'') (astype_str py_str (snd iu))"

definition expected_block_text :: "(json \<Rightarrow> string) \<Rightarrow> json list \<Rightarrow> string" where
  "expected_block_text py_str units =
     str_join [CHR 0x0A] (map (expected_line py_str) (py_enumerate units 1))"

text \<open>
  The documents expected of one tractate, from the value of its \<^verbatim>\<open>text\<close> alone:
  when that value is a list, one document for every chapter with at least one
  unit, in the order of the chapters, numbered from 1; otherwise none.
\<close>

definition expected_documents :: "(json \<Rightarrow> string) \<Rightarrow> string \<Rightarrow> json \<Rightarrow> Document list" where
  "expected_documents py_str t chapters =
     (case chapters of
        JArr chs \<Rightarrow>
          map (\<lambda>i. \<lparr>doc_text = expected_block_text py_str (units_of (chs ! i)),
                     doc_metadata = \<lparr>md_tractate = t, md_chapter = i + 1\<rparr>\<rparr>)
              (filter (\<lambda>i. units_of (chs ! i) \<noteq> []) [0..<length chs])
      | _ \<Rightarrow> [])"

subsection \<open>Sample inputs\<close>

text \<open>
  A service that answers every request with status 200 and the JSON array
  \<^verbatim>\<open>[]\<close>.
\<close>

definition array_service :: service where
  "array_service url = Response 200 (Some (JArr []))"

text \<open>
  A service with two tractates that arrive, one \<^verbatim>\<open>404\<close>, one answer without a
  \<^verbatim>\<open>text\<close> key, and a transport failure for every other tractate.
\<close>

definition sample_service :: service where
  "sample_service url =
     (if url = ''https://www.sefaria.org/api/texts/Mishnah_Berakhot''
      then Response 200 (Some (JObj [(''text'',
             JArr [JArr [JStr ''From when<i>note</i>'', JStr ''Until midnight''],
                   JArr [],
                   JArr [JStr ''One who was reading'']])]))
      else if url = ''https://www.sefaria.org/api/texts/Mishnah_Avot''
      then Response 200 (Some (JObj [(''text'', JArr [JArr [JStr ''Who is wealthy?'']])]))
      else if url = ''https://www.sefaria.org/api/texts/Mishnah_Peah''
      then Response 404 None
      else if url = ''https://www.sefaria.org/api/texts/Mishnah_Demai''
      then Response 200 (Some (JObj [(''error'', JStr ''unknown'')]))
      else Transport_Failure)"

text \<open>
  A service whose only tractate has one chapter of two units: an empty string
  and a string that is markup from its first character on.
\<close>

definition empty_unit_service :: service where
  "empty_unit_service url =
     (if url = ''https://www.sefaria.org/api/texts/Mishnah_Berakhot''
      then Response 200 (Some (JObj [(''text'', JArr [JArr [JStr '''', JStr ''<b>note</b>'']])]))
      else Transport_Failure)"

text \<open>
  A service where one tractate hits a transport failure and every other request
  is answered with status 200 and the JSON array \<^verbatim>\<open>[]\<close>.
\<close>

definition mixed_service :: service where
  "mixed_service url =
     (if url = ''https://www.sefaria.org/api/texts/Mishnah_Berakhot''
      then Transport_Failure
      else Response 200 (Some (JArr [])))"

text \<open>
  A service where one tractate arrives with the chapter list \<^verbatim>\<open>[null]\<close> and every
  other request hits a transport failure.
\<close>

definition null_chapter_service :: service where
  "null_chapter_service url =
     (if url = ''https://www.sefaria.org/api/texts/Mishnah_Oktzin''
      then Response 200 (Some (JObj [(''text'', JArr [JNull])]))
      else Transport_Failure)"

text \<open>
  A dict of texts as the fetcher could return it, and a stand-in for Python's
  \<^verbatim>\<open>str\<close> on values that are not strings (none occurs in the samples).
\<close>

definition sample_texts :: "(string \<times> json) list" where
  "sample_texts =
     [(''Avot'', JArr [JArr [JStr ''Moses received<sup>1</sup>'', JStr ''Shimon''],
                       JArr [JStr ''Rabbi said'']]),
      (''Peah'', JArr [])]"

definition sample_py_str :: "json \<Rightarrow> string" where
  "sample_py_str v = ''None''"

section \<open>Properties\<close>

subsection \<open>Cleaning the text column\<close>

lemma split_from_nonempty: "split_from sep cur s \<noteq> []"
  by (induction s arbitrary: cur) auto

lemma split_from_first: "hd (split_from sep cur s) = cur @ takeWhile (\<lambda>c. c \<noteq> sep) s"
  by (induction s arbitrary: cur) auto

lemma str_get_split:
  "str_get (str_split s sep) 0 = Some (takeWhile (\<lambda>c. c \<noteq> sep) s)"
  using split_from_nonempty [of sep "[]" s] split_from_first [of sep "[]" s]
  by (simp add: str_get_def str_split_def hd_conv_nth)

lemma clean_text_eq:
  "clean_text py_str v = Some (takeWhile (\<lambda>c. c \<noteq> CHR ''<'') (astype_str py_str v))"
  by (simp add: clean_text_def str_get_split)

lemma takeWhile_cut:
  "s = takeWhile (\<lambda>c. c \<noteq> d) s \<or> (\<exists>rest. s = takeWhile (\<lambda>c. c \<noteq> d) s @ d # rest)"
  by (induction s) auto

text \<open>The split never gives an empty list, so \<^verbatim>\<open>dropna\<close> finds nothing to drop.\<close>

lemma dropna_clean_column: "dropna (clean_column py_str rows) = clean_column py_str rows"
  by (simp add: dropna_def clean_column_def clean_text_eq filter_map comp_def case_prod_beta)

text \<open>
  Claim C4. The cleaning step truncates a unit's text at the first markup
  delimiter \<^verbatim>\<open><\<close>: the cleaned text of a string \<open>s\<close> is the longest prefix of \<open>s\<close>
  without the delimiter, and \<open>s\<close> is either that prefix (no delimiter occurs) or
  the prefix followed by the delimiter and the dropped rest. The text column of
  \<^verbatim>\<open>df_mishnah\<close> holds exactly these prefixes, one per row, in the order of the
  rows.
\<close>

theorem cleaning_truncates_at_first_delimiter:
  "clean_text py_str (JStr s) = Some (takeWhile (\<lambda>c. c \<noteq> CHR ''<'') s)
   \<and> CHR ''<'' \<notin> set (takeWhile (\<lambda>c. c \<noteq> CHR ''<'') s)
   \<and> (s = takeWhile (\<lambda>c. c \<noteq> CHR ''<'') s
        \<or> (\<exists>rest. s = takeWhile (\<lambda>c. c \<noteq> CHR ''<'') s @ CHR ''<'' # rest))
   \<and> map col_text (df_mishnah py_str rows) =
       map (\<lambda>row. Some (takeWhile (\<lambda>c. c \<noteq> CHR ''<'')
                             (astype_str py_str (snd (snd (snd row)))))) rows"
proof -
  have a: "clean_text py_str (JStr s) = Some (takeWhile (\<lambda>c. c \<noteq> CHR ''<'') s)"
    by (simp add: clean_text_eq astype_str_def)
  have b: "CHR ''<'' \<notin> set (takeWhile (\<lambda>c. c \<noteq> CHR ''<'') s)"
    using set_takeWhileD by fastforce
  have d: "map col_text (df_mishnah py_str rows) =
       map (\<lambda>row. Some (takeWhile (\<lambda>c. c \<noteq> CHR ''<'')
                             (astype_str py_str (snd (snd (snd row)))))) rows"
    by (simp add: df_mishnah_def dropna_clean_column)
       (simp add: clean_column_def clean_text_eq case_prod_beta comp_def)
  from a b takeWhile_cut [of s "CHR ''<''"] d show ?thesis by blast
qed

text \<open>
  An instance: the text after the first \<^verbatim>\<open><\<close> is lost, markup or not.
\<close>

theorem cleaning_truncates_at_first_delimiter_witness:
  "clean_text sample_py_str (JStr ''if a<b then'') = Some ''if a''"
  using cleaning_truncates_at_first_delimiter [of sample_py_str "''if a<b then''" "[]"]
  by simp

subsection \<open>Fetching\<close>

lemma try_fetch_AttributeError:
  "try_fetch svc url = Inl AttributeError \<longleftrightarrow> body_without_get (svc url)"
  by (auto simp: try_fetch_def body_without_get_def raise_for_status_def response_json_def
        dict_get_def split: http_result.splits option.splits json.splits if_splits)

lemma try_fetch_outcomes:
  "try_fetch svc url = Inl AttributeError \<or> (\<exists>e. try_fetch svc url = Inl e \<and> is_RequestException e)
    \<or> (\<exists>v. try_fetch svc url = Inr v)"
  by (auto simp: try_fetch_def raise_for_status_def response_json_def
        dict_get_def split: http_result.splits option.splits json.splits if_splits)

lemma get_text_failed:
  "fetch_failed svc t \<Longrightarrow> get_mishnah_tractate_text svc t = Inr (JArr [])"
  by (auto simp: fetch_failed_def get_mishnah_tractate_text_def split: sum.splits)

lemma get_text_succeeded:
  "try_fetch svc (tractate_url t) = Inr v \<Longrightarrow> get_mishnah_tractate_text svc t = Inr v"
  by (simp add: get_mishnah_tractate_text_def)

lemma get_text_raises:
  "body_without_get (svc (tractate_url t)) \<Longrightarrow> get_mishnah_tractate_text svc t = Inl AttributeError"
  by (simp add: get_mishnah_tractate_text_def try_fetch_AttributeError [symmetric])

lemma get_text_total:
  assumes "\<not> body_without_get (svc (tractate_url t))"
  shows "\<exists>v. get_mishnah_tractate_text svc t = Inr v"
  using assms try_fetch_outcomes [of svc "tractate_url t"]
  by (auto simp: get_mishnah_tractate_text_def try_fetch_AttributeError)

lemma dict_set_new: "k \<notin> fst ` set d \<Longrightarrow> dict_set d k v = d @ [(k, v)]"
  by (induction d) auto

lemma fetch_loop_Inr:
  assumes "\<forall>t\<in>set ts. \<exists>v. get_mishnah_tractate_text svc t = Inr v"
    and "distinct ts" and "set ts \<inter> fst ` set d = {}"
  shows "fetch_loop svc ts d = Inr (d @ map (\<lambda>t. (t, projr (get_mishnah_tractate_text svc t))) ts)"
  using assms
proof (induction ts arbitrary: d)
  case Nil
  then show ?case by simp
next
  case (Cons t ts)
  from Cons.prems(1) obtain v where v: "get_mishnah_tractate_text svc t = Inr v" by auto
  from Cons.prems(3) have new: "t \<notin> fst ` set d" by auto
  have "fetch_loop svc ts (d @ [(t, v)]) =
          Inr ((d @ [(t, v)]) @ map (\<lambda>t. (t, projr (get_mishnah_tractate_text svc t))) ts)"
  proof (rule Cons.IH)
    show "\<forall>t\<in>set ts. \<exists>v. get_mishnah_tractate_text svc t = Inr v" using Cons.prems(1) by simp
    show "distinct ts" using Cons.prems(2) by simp
    show "set ts \<inter> fst ` set (d @ [(t, v)]) = {}" using Cons.prems(2,3) by auto
  qed
  then show ?case using v new by (simp add: dict_set_new)
qed

lemma tractates_count: "length (mishnah_tractates fetcher) = 63"
  by (simp add: fetcher_def MishnahFetcher_init_def)

lemma tractates_distinct: "distinct (mishnah_tractates fetcher)"
  by (simp add: fetcher_def MishnahFetcher_init_def)

lemma get_all_Inr:
  assumes "\<forall>t\<in>set (mishnah_tractates self). \<not> body_without_get (svc (tractate_url t))"
    and "distinct (mishnah_tractates self)"
  shows "get_all_mishnah_texts self svc =
           Inr (map (\<lambda>t. (t, projr (get_mishnah_tractate_text svc t))) (mishnah_tractates self))"
proof -
  have "\<forall>t\<in>set (mishnah_tractates self). \<exists>v. get_mishnah_tractate_text svc t = Inr v"
    using assms(1) get_text_total by blast
  then show ?thesis
    unfolding get_all_mishnah_texts_def using assms(2) by (simp add: fetch_loop_Inr)
qed

text \<open>
  Claim C9, as amended. Whenever no tractate is answered with a non-error status
  and a decoded body that is not a dict, \<^verbatim>\<open>get_all_mishnah_texts\<close> returns a dict whose
  keys are exactly the 63 tractate names of the fixed list, in the order of the
  list, and a tractate whose fetch failed is among the keys, with the empty list
  as its value.
\<close>

theorem get_all_mishnah_texts_keys:
  assumes "\<forall>t\<in>set (mishnah_tractates fetcher). \<not> body_without_get (svc (tractate_url t))"
  shows "\<exists>texts. get_all_mishnah_texts fetcher svc = Inr texts
           \<and> map fst texts = mishnah_tractates fetcher
           \<and> length texts = 63
           \<and> distinct (map fst texts)
           \<and> (\<forall>t\<in>set (mishnah_tractates fetcher).
                 fetch_failed svc t \<longrightarrow> map_of texts t = Some (JArr []))"
proof -
  let ?texts = "map (\<lambda>t. (t, projr (get_mishnah_tractate_text svc t))) (mishnah_tractates fetcher)"
  have r: "get_all_mishnah_texts fetcher svc = Inr ?texts"
    using assms tractates_distinct by (rule get_all_Inr)
  have k: "map fst ?texts = mishnah_tractates fetcher" by (simp add: comp_def)
  have f: "map_of ?texts t = Some (JArr [])"
    if "t \<in> set (mishnah_tractates fetcher)" and "fetch_failed svc t" for t
    using that by (simp add: map_of_map_restrict get_text_failed)
  from r k f show ?thesis using tractates_count tractates_distinct
    by (intro exI [of _ ?texts]) simp
qed

text \<open>
  The hypothesis holds for the sample service, where \<^verbatim>\<open>Peah\<close> is answered with
  \<^verbatim>\<open>404\<close>.
\<close>

theorem get_all_mishnah_texts_keys_witness:
  "\<exists>texts. get_all_mishnah_texts fetcher sample_service = Inr texts
      \<and> map fst texts = mishnah_tractates fetcher \<and> map_of texts ''Peah'' = Some (JArr [])"
proof -
  have h: "\<forall>t\<in>set (mishnah_tractates fetcher). \<not> body_without_get (sample_service (tractate_url t))"
    by (simp add: fetcher_def MishnahFetcher_init_def body_without_get_def sample_service_def tractate_url_def)
  have p: "''Peah'' \<in> set (mishnah_tractates fetcher)"
    by (simp add: fetcher_def MishnahFetcher_init_def)
  have ff: "fetch_failed sample_service ''Peah''"
    by (simp add: fetch_failed_def try_fetch_def sample_service_def tractate_url_def raise_for_status_def)
  from get_all_mishnah_texts_keys [OF h] p ff show ?thesis by blast
qed

text \<open>
  Without the hypothesis the method does not return: \<^verbatim>\<open>[].get\<close> raises
  \<^verbatim>\<open>AttributeError\<close>, which the \<^verbatim>\<open>except\<close> clause does not catch.
\<close>

theorem get_all_mishnah_texts_raises:
  "get_all_mishnah_texts fetcher array_service = Inl AttributeError"
  by (simp add: get_all_mishnah_texts_def fetcher_def MishnahFetcher_init_def
       get_text_raises body_without_get_def array_service_def)

subsection \<open>Rows\<close>

lemma py_iter_iterable: "iterable ch \<Longrightarrow> py_iter ch = Inr (units_of ch)"
  by (cases ch) simp_all

lemma for_each_Inr:
  "\<forall>x\<in>set xs. f x = Inr (g x) \<Longrightarrow> for_each f xs = Inr (concat (map g xs))"
  by (induction xs) auto

lemma py_enumerate_nth:
  "py_enumerate xs start = map (\<lambda>i. (start + i, xs ! i)) [0..<length xs]"
  by (rule nth_equalityI) (simp_all add: py_enumerate_def)

lemma chapter_rows_iterable:
  "iterable ch \<Longrightarrow>
   chapter_rows t (c, ch) =
     Inr (map (\<lambda>j. (t, c, j + 1, units_of ch ! j)) [0..<length (units_of ch)])"
  by (simp add: chapter_rows_def py_iter_iterable py_enumerate_nth comp_def)

lemma rows_by_position_single:
  "rows_by_position [(t, JArr chs)] = concat (map (chapter_block t chs) [0..<length chs])"
  by (simp add: rows_by_position_def chapter_block_def [abs_def])

lemma tractate_rows_list:
  assumes "list_all iterable chs"
  shows "tractate_rows (t, JArr chs) =
     Inr (concat (map (\<lambda>i. map (\<lambda>j. (t, i + 1, j + 1, units_of (chs ! i) ! j))
                                  [0..<length (units_of (chs ! i))]) [0..<length chs]))"
proof (cases "chs = []")
  case True
  then show ?thesis by (simp add: tractate_rows_def)
next
  case False
  let ?g = "\<lambda>ic. map (\<lambda>j. (t, fst ic, j + 1, units_of (snd ic) ! j)) [0..<length (units_of (snd ic))]"
  have "\<forall>ic\<in>set (py_enumerate chs 1). chapter_rows t ic = Inr (?g ic)"
  proof
    fix ic assume "ic \<in> set (py_enumerate chs 1)"
    then have "snd ic \<in> set chs" by (metis py_enumerate_def prod.collapse set_zip_rightD)
    then have "iterable (snd ic)" using assms by (simp add: list_all_iff)
    then show "chapter_rows t ic = Inr (?g ic)"
      using chapter_rows_iterable [of "snd ic" t "fst ic"] by simp
  qed
  then have "for_each (chapter_rows t) (py_enumerate chs 1) = Inr (concat (map ?g (py_enumerate chs 1)))"
    by (rule for_each_Inr)
  then show ?thesis using False
    by (simp add: tractate_rows_def) (simp add: py_enumerate_nth comp_def)
qed

lemma tractate_rows_by_position:
  assumes "chapters_iterable chapters"
  shows "tractate_rows (t, chapters) = Inr (rows_by_position [(t, chapters)])"
proof (cases chapters)
  case (JArr chs)
  then show ?thesis using assms tractate_rows_list [of chs t]
    by (simp add: chapters_iterable_def rows_by_position_def)
qed (simp_all add: tractate_rows_def rows_by_position_def)

lemma rows_by_position_Cons:
  "rows_by_position (tc # texts) = rows_by_position [tc] @ rows_by_position texts"
  by (simp add: rows_by_position_def)

lemma build_rows_by_position:
  assumes "\<forall>tc\<in>set texts. chapters_iterable (snd tc)"
  shows "build_rows texts = Inr (rows_by_position texts)"
proof -
  have "\<forall>tc\<in>set texts. tractate_rows tc = Inr (rows_by_position [tc])"
    using assms tractate_rows_by_position by (metis prod.collapse)
  then have "for_each tractate_rows texts = Inr (concat (map (\<lambda>tc. rows_by_position [tc]) texts))"
    by (rule for_each_Inr)
  moreover have "concat (map (\<lambda>tc. rows_by_position [tc]) texts) = rows_by_position texts"
    by (simp add: rows_by_position_def)
  ultimately show ?thesis by (simp add: build_rows_def)
qed

lemma in_tractate_block:
  assumes "i < length chs" and "j < length (units_of (chs ! i))"
  shows "(t, i + 1, j + 1, units_of (chs ! i) ! j) \<in> set (rows_by_position [(t, JArr chs)])"
proof -
  have "(t, i + 1, j + 1, units_of (chs ! i) ! j)
          \<in> set (map (\<lambda>j. (t, i + 1, j + 1, units_of (chs ! i) ! j)) [0..<length (units_of (chs ! i))])"
    using assms(2) by simp
  moreover have "i \<in> set [0..<length chs]" using assms(1) by simp
  ultimately show ?thesis
    unfolding rows_by_position_def by (simp del: set_upt) blast
qed

lemma set_rows_by_position:
  "set (rows_by_position texts) = (\<Union>tc\<in>set texts. set (rows_by_position [tc]))"
proof (induction texts)
  case Nil
  show ?case by (simp add: rows_by_position_def)
next
  case (Cons tc texts)
  have "set (rows_by_position (tc # texts)) =
          set (rows_by_position [tc]) \<union> set (rows_by_position texts)"
    by (subst rows_by_position_Cons) simp
  with Cons.IH show ?case by simp
qed

lemma rows_by_position_mono:
  "tc \<in> set texts \<Longrightarrow> set (rows_by_position [tc]) \<subseteq> set (rows_by_position texts)"
  by (subst (2) set_rows_by_position) blast

lemma in_rows_by_position:
  "(t, c, m, u) \<in> set (rows_by_position texts) \<longleftrightarrow>
     (\<exists>chs. (t, JArr chs) \<in> set texts \<and> 1 \<le> c \<and> c \<le> length chs
        \<and> 1 \<le> m \<and> m \<le> length (units_of (chs ! (c - 1)))
        \<and> u = units_of (chs ! (c - 1)) ! (m - 1))"
  (is "?L \<longleftrightarrow> ?R")
proof
  assume ?L
  then obtain chapters where tc: "(t, chapters) \<in> set texts"
    and r: "(t, c, m, u) \<in> set (rows_by_position [(t, chapters)])"
    by (auto simp: rows_by_position_def)
  from r obtain chs where chs: "chapters = JArr chs"
    by (cases chapters) (auto simp: rows_by_position_def)
  from r chs obtain i j where "i < length chs" "j < length (units_of (chs ! i))"
    "c = i + 1" "m = j + 1" "u = units_of (chs ! i) ! j"
    by (auto simp: rows_by_position_def)
  with tc chs show ?R by auto
next
  assume ?R
  then obtain chs where tc: "(t, JArr chs) \<in> set texts" and c: "1 \<le> c" "c \<le> length chs"
    and m: "1 \<le> m" "m \<le> length (units_of (chs ! (c - 1)))"
    and u: "u = units_of (chs ! (c - 1)) ! (m - 1)" by blast
  obtain i where i: "c = Suc i" using c(1) by (cases c) auto
  obtain j where j: "m = Suc j" using m(1) by (cases m) auto
  have il: "i < length chs" using c(2) i by simp
  have jl: "j < length (units_of (chs ! i))" using m(2) i j by simp
  have "(t, i + 1, j + 1, units_of (chs ! i) ! j) \<in> set (rows_by_position [(t, JArr chs)])"
    using il jl by (rule in_tractate_block)
  then have "(t, c, m, u) \<in> set (rows_by_position [(t, JArr chs)])"
    using i j u by simp
  with tc show ?L using rows_by_position_mono by blast
qed

text \<open>
  Claim C10. When every chapter can be iterated, the row loop returns, and its
  rows are the rows by position: a row \<open>(t, c, m, u)\<close> exists exactly when \<open>u\<close> is the
  unit at index \<open>m - 1\<close> of the chapter at index \<open>c - 1\<close> of tractate \<open>t\<close>, so
  chapters and units are numbered from 1 without gaps; the cleaned frame keeps
  the three index columns of every row.
\<close>

theorem row_indices_are_positions:
  assumes "\<forall>tc\<in>set texts. chapters_iterable (snd tc)"
  shows "build_rows texts = Inr (rows_by_position texts)
     \<and> (\<forall>t c m u. (t, c, m, u) \<in> set (rows_by_position texts) \<longleftrightarrow>
          (\<exists>chs. (t, JArr chs) \<in> set texts \<and> 1 \<le> c \<and> c \<le> length chs
             \<and> 1 \<le> m \<and> m \<le> length (units_of (chs ! (c - 1)))
             \<and> u = units_of (chs ! (c - 1)) ! (m - 1)))
     \<and> map (\<lambda>r. (col_tractate r, col_chapter r, col_mishnah r)) (df_mishnah py_str (rows_by_position texts))
         = map (\<lambda>(t, c, m, u). (t, c, m)) (rows_by_position texts)"
proof -
  have "map (\<lambda>r. (col_tractate r, col_chapter r, col_mishnah r)) (clean_column py_str rows)
         = map (\<lambda>(t, c, m, u). (t, c, m)) rows" for rows
    by (simp add: clean_column_def comp_def case_prod_beta)
  then show ?thesis
    using build_rows_by_position [OF assms] in_rows_by_position
    by (simp add: df_mishnah_def dropna_clean_column)
qed

theorem row_indices_are_positions_witness:
  "build_rows sample_texts =
     Inr [(''Avot'', 1, 1, JStr ''Moses received<sup>1</sup>''), (''Avot'', 1, 2, JStr ''Shimon''),
          (''Avot'', 2, 1, JStr ''Rabbi said'')]"
proof -
  have h: "\<forall>tc\<in>set sample_texts. chapters_iterable (snd tc)"
    by (simp add: sample_texts_def chapters_iterable_def)
  have "rows_by_position sample_texts =
     [(''Avot'', 1, 1, JStr ''Moses received<sup>1</sup>''), (''Avot'', 1, 2, JStr ''Shimon''),
          (''Avot'', 2, 1, JStr ''Rabbi said'')]"
    by code_simp
  with row_indices_are_positions [OF h, of sample_py_str] show ?thesis by simp
qed

subsection \<open>Documents\<close>

lemma make_documents_eq:
  "make_documents df =
     map (\<lambda>k. \<lparr>doc_text = chapter_text (filter (\<lambda>r. group_key r = k) df),
                doc_metadata = \<lparr>md_tractate = fst k, md_chapter = snd k\<rparr>\<rparr>)
         (sort (remdups (map group_key df)))"
  by (simp add: make_documents_def groupby_def comp_def)


lemma set_make_documents:
  "set (make_documents df) =
     (\<lambda>k. \<lparr>doc_text = chapter_text (filter (\<lambda>r. group_key r = k) df),
            doc_metadata = \<lparr>md_tractate = fst k, md_chapter = snd k\<rparr>\<rparr>) ` group_key ` set df"
  by (simp add: make_documents_eq)

lemma filter_clean_column:
  "filter (\<lambda>r. P (col_tractate r) (col_chapter r)) (clean_column py_str rows) =
     clean_column py_str (filter (\<lambda>row. P (fst row) (fst (snd row))) rows)"
  by (induction rows) (auto simp: clean_column_def)

lemma keys_clean_column:
  "map group_key (clean_column py_str rows) = map (\<lambda>row. (fst row, fst (snd row))) rows"
  by (simp add: clean_column_def group_key_def comp_def case_prod_beta)

lemma concat_map_single:
  "distinct xs \<Longrightarrow> x \<in> set xs \<Longrightarrow> concat (map (\<lambda>y. if y = x then f y else []) xs) = f x"
proof (induction xs)
  case Nil
  then show ?case by simp
next
  case (Cons a xs)
  have none: "concat (map (\<lambda>y. if y = x then f y else []) ys) = []" if "x \<notin> set ys" for ys
    using that by (induction ys) auto
  show ?case
  proof (cases "a = x")
    case True
    with Cons.prems have "x \<notin> set xs" by simp
    with True show ?thesis by (simp add: none)
  next
    case False
    with Cons show ?thesis by simp
  qed
qed

lemma fst_rows_by_position: "row \<in> set (rows_by_position [(t, chapters)]) \<Longrightarrow> fst row = t"
  by (cases chapters) (auto simp: rows_by_position_def)

lemma filter_tractate_other:
  "t \<notin> fst ` set texts \<Longrightarrow> filter (\<lambda>row. fst row = t) (rows_by_position texts) = []"
proof (induction texts)
  case Nil
  show ?case by (simp add: rows_by_position_def)
next
  case (Cons tc texts)
  have "filter (\<lambda>row. fst row = t) (rows_by_position [tc]) = []"
    using Cons.prems fst_rows_by_position [of _ "fst tc" "snd tc"] by (auto simp: filter_empty_conv)
  moreover have "filter (\<lambda>row. fst row = t) (rows_by_position texts) = []"
    using Cons by simp
  ultimately show ?case by (subst rows_by_position_Cons) simp
qed

lemma filter_tractate:
  assumes "distinct (map fst texts)" and "(t, chapters) \<in> set texts"
  shows "filter (\<lambda>row. fst row = t) (rows_by_position texts) = rows_by_position [(t, chapters)]"
  using assms
proof (induction texts)
  case Nil
  then show ?case by simp
next
  case (Cons tc texts)
  have split: "filter (\<lambda>row. fst row = t) (rows_by_position (tc # texts)) =
      filter (\<lambda>row. fst row = t) (rows_by_position [tc]) @ filter (\<lambda>row. fst row = t) (rows_by_position texts)"
    by (subst rows_by_position_Cons) simp
  show ?case
  proof (cases "tc = (t, chapters)")
    case True
    then have "t \<notin> fst ` set texts" using Cons.prems(1) by auto
    then have "filter (\<lambda>row. fst row = t) (rows_by_position texts) = []"
      by (rule filter_tractate_other)
    moreover have "filter (\<lambda>row. fst row = t) (rows_by_position [tc]) = rows_by_position [tc]"
      using True fst_rows_by_position [of _ t chapters] by (auto simp: filter_id_conv)
    ultimately show ?thesis using split True by simp
  next
    case False
    then have mem: "(t, chapters) \<in> set texts" using Cons.prems(2) by simp
    then have "fst tc \<noteq> t" using Cons.prems(1) by (auto simp: image_iff)
    then have "filter (\<lambda>row. fst row = t) (rows_by_position [tc]) = []"
      using fst_rows_by_position [of _ "fst tc" "snd tc"] by (auto simp: filter_empty_conv)
    moreover have "filter (\<lambda>row. fst row = t) (rows_by_position texts) = rows_by_position [(t, chapters)]"
      using Cons.IH Cons.prems(1) mem by simp
    ultimately show ?thesis using split by simp
  qed
qed

lemma filter_chapter:
  assumes "i < length chs"
  shows "filter (\<lambda>row. fst (snd row) = i + 1) (rows_by_position [(t, JArr chs)]) = chapter_block t chs i"
proof -
  have "filter (\<lambda>row. fst (snd row) = i + 1) (chapter_block t chs k) =
          (if k = i then chapter_block t chs k else [])" for k
    by (auto simp: chapter_block_def filter_empty_conv filter_id_conv)
  then have "filter (\<lambda>row. fst (snd row) = i + 1) (rows_by_position [(t, JArr chs)]) =
          concat (map (\<lambda>k. if k = i then chapter_block t chs k else []) [0..<length chs])"
    by (simp add: rows_by_position_single filter_concat comp_def)
  also have "\<dots> = chapter_block t chs i"
    using assms by (intro concat_map_single) simp_all
  finally show ?thesis .
qed

lemma filter_group:
  assumes "distinct (map fst texts)" and "(t, JArr chs) \<in> set texts" and "i < length chs"
  shows "filter (\<lambda>r. group_key r = (t, i + 1)) (clean_column py_str (rows_by_position texts)) =
           clean_column py_str (chapter_block t chs i)"
proof -
  have "filter (\<lambda>r. group_key r = (t, i + 1)) (clean_column py_str (rows_by_position texts)) =
     clean_column py_str (filter (\<lambda>row. fst row = t \<and> fst (snd row) = i + 1) (rows_by_position texts))"
    using filter_clean_column [of "\<lambda>a b. a = t \<and> b = i + 1" py_str "rows_by_position texts"]
    by (simp add: group_key_def)
  also have "filter (\<lambda>row. fst row = t \<and> fst (snd row) = i + 1) (rows_by_position texts) =
      filter (\<lambda>row. fst (snd row) = i + 1) (filter (\<lambda>row. fst row = t) (rows_by_position texts))"
    by (simp add: conj_commute)
  also have "\<dots> = chapter_block t chs i"
    using filter_tractate [OF assms(1,2)] filter_chapter [OF assms(3), of t] by simp
  finally show ?thesis .
qed

lemma chapter_text_block:
  "chapter_text (clean_column py_str (chapter_block t chs i)) =
     expected_block_text py_str (units_of (chs ! i))"
  by (simp add: chapter_text_def expected_block_text_def clean_column_def chapter_block_def
        py_enumerate_nth comp_def row_line_def expected_line_def clean_text_eq)

lemma keys_rows:
  "(t, c) \<in> group_key ` set (clean_column py_str (rows_by_position texts)) \<longleftrightarrow>
     (\<exists>chs. (t, JArr chs) \<in> set texts \<and> 1 \<le> c \<and> c \<le> length chs
        \<and> units_of (chs ! (c - 1)) \<noteq> [])"
  (is "?L \<longleftrightarrow> ?R")
proof -
  have "?L \<longleftrightarrow> (\<exists>m u. (t, c, m, u) \<in> set (rows_by_position texts))"
  proof -
    have "group_key ` set (clean_column py_str (rows_by_position texts)) =
            (\<lambda>row. (fst row, fst (snd row))) ` set (rows_by_position texts)"
      using keys_clean_column [of py_str "rows_by_position texts"]
      by (metis list.set_map)
    then have "?L \<longleftrightarrow> (t, c) \<in> (\<lambda>row. (fst row, fst (snd row))) ` set (rows_by_position texts)"
      by simp
    also have "\<dots> \<longleftrightarrow> (\<exists>m u. (t, c, m, u) \<in> set (rows_by_position texts))"
      by force
    finally show ?thesis .
  qed
  also have "\<dots> \<longleftrightarrow> ?R"
  proof
    assume "\<exists>m u. (t, c, m, u) \<in> set (rows_by_position texts)"
    then obtain m u chs where "(t, JArr chs) \<in> set texts" "1 \<le> c" "c \<le> length chs"
      "1 \<le> m" "m \<le> length (units_of (chs ! (c - 1)))"
      unfolding in_rows_by_position by blast
    then show ?R by (intro exI [of _ chs]) auto
  next
    assume ?R
    then obtain chs where h: "(t, JArr chs) \<in> set texts" "1 \<le> c" "c \<le> length chs"
      "units_of (chs ! (c - 1)) \<noteq> []" by blast
    then have "1 \<le> length (units_of (chs ! (c - 1)))" by (simp add: Suc_le_eq)
    with h have "(t, c, 1, units_of (chs ! (c - 1)) ! (1 - 1)) \<in> set (rows_by_position texts)"
      unfolding in_rows_by_position by blast
    then show "\<exists>m u. (t, c, m, u) \<in> set (rows_by_position texts)" by blast
  qed
  finally show ?thesis .
qed

lemma text_of_group:
  assumes "distinct (map fst texts)" and "(t, JArr chs) \<in> set texts"
    and "1 \<le> c" and "c \<le> length chs"
  shows "chapter_text (filter (\<lambda>r. group_key r = (t, c)) (clean_column py_str (rows_by_position texts)))
           = expected_block_text py_str (units_of (chs ! (c - 1)))"
proof -
  obtain i where i: "c = i + 1" using assms(3) by (cases c) auto
  then have "i < length chs" using assms(4) by simp
  then show ?thesis
    using filter_group [OF assms(1,2), of i py_str] chapter_text_block [of py_str t chs i] i
    by simp
qed



text \<open>
  Claim C2 fails on the code. The cell comments its last two lines with
  \<^verbatim>\<open>Clean up HTML tags and remove empty rows\<close>, but \<^verbatim>\<open>dropna\<close> removes missing
  values only, and the cleaned text is never missing (\<open>dropna_clean_column\<close>). A
  chapter whose two units clean to the empty string still gives a document,
  with one line per unit.
\<close>

theorem empty_units_reach_the_documents:
  "notebook_documents sample_py_str empty_unit_service =
     Inr [\<lparr>doc_text = ''Mishnah 1: \<newline>Mishnah 2: '',
           doc_metadata = \<lparr>md_tractate = ''Berakhot'', md_chapter = 1\<rparr>\<rparr>]"
  by code_simp

subsection \<open>A failed fetch and the documents\<close>

text \<open>
  The outcomes read off the response agree with what the \<^verbatim>\<open>try\<close> block does.
\<close>

lemma service_error_failed:
  "fetch_failed svc t \<longleftrightarrow> service_error (svc (tractate_url t))"
  by (auto simp: fetch_failed_def service_error_def try_fetch_def raise_for_status_def
        response_json_def dict_get_def split: http_result.splits option.splits json.splits)

lemma arrived_try_fetch:
  "arrived (svc url) \<Longrightarrow> try_fetch svc url = Inr (text_field (svc url))"
  by (auto simp: arrived_def text_field_def try_fetch_def raise_for_status_def
        response_json_def dict_get_def split: http_result.splits option.splits json.splits)

lemma arrived_not_body_without_get: "arrived r \<Longrightarrow> \<not> body_without_get r"
  by (auto simp: arrived_def body_without_get_def split: http_result.splits option.splits)

lemma service_error_not_body_without_get: "service_error r \<Longrightarrow> \<not> body_without_get r"
  by (auto simp: service_error_def body_without_get_def split: http_result.splits option.splits)

text \<open>
  The documents of a single tractate, as a list: the sorted keys of its groups
  are its chapters with a unit, in order.
\<close>

lemma keys_single:
  "sort (remdups (map group_key (clean_column py_str (rows_by_position [(t, JArr chs)])))) =
     map (\<lambda>i. (t, i + 1)) (filter (\<lambda>i. units_of (chs ! i) \<noteq> []) [0..<length chs])"
  (is "?l = ?r")
proof (rule sorted_distinct_set_unique)
  show "sorted ?l" by simp
  show "distinct ?l" by simp
  have "sorted (filter (\<lambda>i. units_of (chs ! i) \<noteq> []) [0..<length chs])"
    by (rule sorted_wrt_filter) simp
  then have "sorted_wrt (\<lambda>i j. (t, i + 1) \<le> (t, j + 1))
               (filter (\<lambda>i. units_of (chs ! i) \<noteq> []) [0..<length chs])"
    by (rule sorted_wrt_mono_rel [rotated]) (simp add: less_eq_prod_def)
  then show "sorted ?r" by (simp add: sorted_map)
  show "distinct ?r" by (simp add: distinct_map inj_on_def)
  show "set ?l = set ?r"
  proof (rule set_eqI)
    fix k :: "string \<times> nat"
    obtain t' c where k: "k = (t', c)" by (cases k)
    have "k \<in> set ?l \<longleftrightarrow> (t', c) \<in> group_key ` set (clean_column py_str (rows_by_position [(t, JArr chs)]))"
      by (simp add: k)
    also have "\<dots> \<longleftrightarrow> t' = t \<and> 1 \<le> c \<and> c \<le> length chs \<and> units_of (chs ! (c - 1)) \<noteq> []"
      unfolding keys_rows by auto
    also have "\<dots> \<longleftrightarrow> k \<in> set ?r"
    proof
      assume a: "t' = t \<and> 1 \<le> c \<and> c \<le> length chs \<and> units_of (chs ! (c - 1)) \<noteq> []"
      then obtain i where i: "c = Suc i" by (cases c) auto
      with a have "i < length chs" "units_of (chs ! i) \<noteq> []" by simp_all
      then show "k \<in> set ?r" using a i k by auto
    next
      assume "k \<in> set ?r"
      then show "t' = t \<and> 1 \<le> c \<and> c \<le> length chs \<and> units_of (chs ! (c - 1)) \<noteq> []"
        using k by auto
    qed
    finally show "k \<in> set ?l \<longleftrightarrow> k \<in> set ?r" .
  qed
qed

lemma documents_single:
  "make_documents (clean_column py_str (rows_by_position [(t, chapters)])) =
     expected_documents py_str t chapters"
proof (cases chapters)
  case (JArr chs)
  let ?df = "clean_column py_str (rows_by_position [(t, JArr chs)])"
  let ?is = "filter (\<lambda>i. units_of (chs ! i) \<noteq> []) [0..<length chs]"
  have "make_documents ?df =
          map (\<lambda>k. \<lparr>doc_text = chapter_text (filter (\<lambda>r. group_key r = k) ?df),
                     doc_metadata = \<lparr>md_tractate = fst k, md_chapter = snd k\<rparr>\<rparr>)
              (map (\<lambda>i. (t, i + 1)) ?is)"
    by (simp only: make_documents_eq keys_single)
  also have "\<dots> = map (\<lambda>i. \<lparr>doc_text = chapter_text (filter (\<lambda>r. group_key r = (t, i + 1)) ?df),
                     doc_metadata = \<lparr>md_tractate = t, md_chapter = i + 1\<rparr>\<rparr>) ?is"
    by (simp add: comp_def)
  also have "\<dots> = map (\<lambda>i. \<lparr>doc_text = expected_block_text py_str (units_of (chs ! i)),
                     doc_metadata = \<lparr>md_tractate = t, md_chapter = i + 1\<rparr>\<rparr>) ?is"
  proof (rule map_cong [OF refl])
    fix i assume "i \<in> set ?is"
    then have i: "i < length chs" by simp
    have "chapter_text (filter (\<lambda>r. group_key r = (t, i + 1)) ?df) =
            expected_block_text py_str (units_of (chs ! (i + 1 - 1)))"
      by (rule text_of_group) (use i in simp_all)
    then show "\<lparr>doc_text = chapter_text (filter (\<lambda>r. group_key r = (t, i + 1)) ?df),
                     doc_metadata = \<lparr>md_tractate = t, md_chapter = i + 1\<rparr>\<rparr> =
               \<lparr>doc_text = expected_block_text py_str (units_of (chs ! i)),
                     doc_metadata = \<lparr>md_tractate = t, md_chapter = i + 1\<rparr>\<rparr>"
      by simp
  qed
  finally show ?thesis using JArr by (simp add: expected_documents_def)
qed (simp_all add: rows_by_position_def clean_column_def make_documents_eq expected_documents_def)

text \<open>
  Keeping the documents of one tractate is the same as grouping the rows of
  that tractate alone.
\<close>

lemma filter_make_documents:
  "filter (\<lambda>d. md_tractate (doc_metadata d) = t) (make_documents df) =
     make_documents (filter (\<lambda>r. col_tractate r = t) df)"
proof -
  let ?df' = "filter (\<lambda>r. col_tractate r = t) df"
  let ?mk = "\<lambda>df k. \<lparr>doc_text = chapter_text (filter (\<lambda>r. group_key r = k) df),
                doc_metadata = \<lparr>md_tractate = fst k, md_chapter = snd k\<rparr>\<rparr>"
  have keys: "filter (\<lambda>k. fst k = t) (sort (remdups (map group_key df))) =
          sort (remdups (map group_key ?df'))"
  proof -
    have "filter (\<lambda>k. fst k = t) (map group_key df) = map group_key ?df'"
      by (simp add: filter_map comp_def group_key_def)
    then show ?thesis
      by (simp add: filter_sort remdups_filter [symmetric])
  qed
  have same: "?mk df k = ?mk ?df' k" if "fst k = t" for k
  proof -
    have "filter (\<lambda>r. group_key r = k) ?df' = filter (\<lambda>r. group_key r = k) df"
      using that by (auto simp: group_key_def intro: filter_cong)
    then show ?thesis by simp
  qed
  have "filter (\<lambda>d. md_tractate (doc_metadata d) = t) (make_documents df) =
          map (?mk df) (filter (\<lambda>k. fst k = t) (sort (remdups (map group_key df))))"
    by (simp add: make_documents_eq filter_map comp_def)
  also have "\<dots> = map (?mk df) (sort (remdups (map group_key ?df')))"
    by (simp only: keys)
  also have "\<dots> = map (?mk ?df') (sort (remdups (map group_key ?df')))"
  proof (rule map_cong [OF refl])
    fix k assume "k \<in> set (sort (remdups (map group_key ?df')))"
    then have "fst k = t" by (auto simp: group_key_def)
    then show "?mk df k = ?mk ?df' k" by (rule same)
  qed
  also have "\<dots> = make_documents ?df'" by (simp add: make_documents_eq)
  finally show ?thesis .
qed

lemma documents_of_section:
  assumes "distinct (map fst texts)" and "(t, chapters) \<in> set texts"
  shows "filter (\<lambda>d. md_tractate (doc_metadata d) = t)
            (make_documents (clean_column py_str (rows_by_position texts))) =
         make_documents (clean_column py_str (rows_by_position [(t, chapters)]))"
proof -
  have "filter (\<lambda>r. col_tractate r = t) (clean_column py_str (rows_by_position texts)) =
          clean_column py_str (filter (\<lambda>row. fst row = t) (rows_by_position texts))"
    using filter_clean_column [of "\<lambda>a b. a = t" py_str "rows_by_position texts"] by simp
  then show ?thesis
    using filter_tractate [OF assms] by (simp add: filter_make_documents)
qed

lemma tractate_of_document:
  "d \<in> set (make_documents df) \<Longrightarrow> \<exists>r\<in>set df. md_tractate (doc_metadata d) = col_tractate r"
  by (auto simp: set_make_documents group_key_def)

text \<open>
  Claim C1, as amended. A fetch whose response is a transport or service error
  (no response, a 4xx or 5xx status, a body that is not JSON) returns the empty
  list. When every tractate of the list is answered either with such an error or
  with a JSON object whose chapters can be iterated, \<^verbatim>\<open>get_all_mishnah_texts\<close> and
  the cells after it return; a failed tractate has the empty list in the dict and
  no document; a tractate that arrived has its \<^verbatim>\<open>text\<close> in the dict, and its documents
  are the expected ones: one for each of its chapters with at least one unit, in
  order, so none when it arrived without a unit; and every document belongs to a
  tractate of the list.
\<close>

theorem failed_sections_are_isolated:
  assumes "\<forall>t\<in>set (mishnah_tractates fetcher).
             service_error (svc (tractate_url t))
             \<or> (arrived (svc (tractate_url t))
                 \<and> chapters_iterable (text_field (svc (tractate_url t))))"
  shows "(\<forall>t. service_error (svc (tractate_url t)) \<longrightarrow>
            get_mishnah_tractate_text svc t = Inr (JArr []))
    \<and> (\<exists>texts docs.
          get_all_mishnah_texts fetcher svc = Inr texts
        \<and> notebook_documents py_str svc = Inr docs
        \<and> (\<forall>t\<in>set (mishnah_tractates fetcher).
              (service_error (svc (tractate_url t)) \<longrightarrow>
                  map_of texts t = Some (JArr [])
                \<and> filter (\<lambda>d. md_tractate (doc_metadata d) = t) docs = [])
            \<and> (arrived (svc (tractate_url t)) \<longrightarrow>
                  map_of texts t = Some (text_field (svc (tractate_url t)))
                \<and> filter (\<lambda>d. md_tractate (doc_metadata d) = t) docs
                    = expected_documents py_str t (text_field (svc (tractate_url t)))))
        \<and> (\<forall>d\<in>set docs. md_tractate (doc_metadata d) \<in> set (mishnah_tractates fetcher)))"
proof -
  let ?ts = "mishnah_tractates fetcher"
  let ?v = "\<lambda>t. projr (get_mishnah_tractate_text svc t)"
  let ?texts = "map (\<lambda>t. (t, ?v t)) ?ts"
  let ?df = "clean_column py_str (rows_by_position ?texts)"
  let ?docs = "make_documents ?df"
  have failed: "get_mishnah_tractate_text svc t = Inr (JArr [])"
    if "service_error (svc (tractate_url t))" for t
    using that by (simp add: get_text_failed service_error_failed)
  have got: "get_mishnah_tractate_text svc t = Inr (text_field (svc (tractate_url t)))"
    if "arrived (svc (tractate_url t))" for t
    using that by (simp add: get_text_succeeded arrived_try_fetch)
  have ok: "\<not> body_without_get (svc (tractate_url t))" if "t \<in> set ?ts" for t
    using assms that arrived_not_body_without_get service_error_not_body_without_get by blast
  have texts: "get_all_mishnah_texts fetcher svc = Inr ?texts"
    using ok tractates_distinct by (intro get_all_Inr) blast+
  have keys: "distinct (map fst ?texts)"
    using tractates_distinct by (simp add: comp_def)
  have mem: "(t, ?v t) \<in> set ?texts" if "t \<in> set ?ts" for t
    using that by auto
  have lookup: "map_of ?texts t = Some (?v t)" if "t \<in> set ?ts" for t
    using that by (simp add: map_of_map_restrict)
  have iter: "chapters_iterable (?v t)" if "t \<in> set ?ts" for t
  proof -
    from assms that consider "service_error (svc (tractate_url t))"
      | "arrived (svc (tractate_url t))" "chapters_iterable (text_field (svc (tractate_url t)))"
      by blast
    then show ?thesis
    proof cases
      case 1
      then show ?thesis by (simp add: failed chapters_iterable_def)
    next
      case 2
      then show ?thesis by (simp add: got)
    qed
  qed
  have "\<forall>tc\<in>set ?texts. chapters_iterable (snd tc)"
    using iter by auto
  then have rows: "build_rows ?texts = Inr (rows_by_position ?texts)"
    by (rule build_rows_by_position)
  have docs: "notebook_documents py_str svc = Inr ?docs"
    by (simp add: notebook_documents_def texts rows df_mishnah_def dropna_clean_column)
  have sect: "filter (\<lambda>d. md_tractate (doc_metadata d) = t) ?docs =
                expected_documents py_str t (?v t)"
    if "t \<in> set ?ts" for t
    using documents_of_section [OF keys mem [OF that], of py_str]
    by (simp only: documents_single)
  have A: "map_of ?texts t = Some (JArr [])
        \<and> filter (\<lambda>d. md_tractate (doc_metadata d) = t) ?docs = []"
    if "t \<in> set ?ts" and "service_error (svc (tractate_url t))" for t
    using lookup [OF that(1)] sect [OF that(1)] failed [OF that(2)]
    by (simp add: expected_documents_def)
  have B: "map_of ?texts t = Some (text_field (svc (tractate_url t)))
        \<and> filter (\<lambda>d. md_tractate (doc_metadata d) = t) ?docs
            = expected_documents py_str t (text_field (svc (tractate_url t)))"
    if "t \<in> set ?ts" and "arrived (svc (tractate_url t))" for t
    using lookup [OF that(1)] sect [OF that(1)] got [OF that(2)] by simp
  have C: "md_tractate (doc_metadata d) \<in> set ?ts" if "d \<in> set ?docs" for d
  proof -
    from that obtain r where r: "r \<in> set ?df"
      and d: "md_tractate (doc_metadata d) = col_tractate r"
      using tractate_of_document by blast
    have "(col_tractate r, col_chapter r) \<in> group_key ` set ?df"
      using r by (auto simp: group_key_def image_iff)
    then obtain chs where "(col_tractate r, JArr chs) \<in> set ?texts"
      unfolding keys_rows by blast
    then have "col_tractate r \<in> set ?ts" by auto
    with d show ?thesis by simp
  qed
  from failed texts docs A B C show ?thesis by blast
qed

text \<open>
  The sample service: \<^verbatim>\<open>Peah\<close> fails and \<^verbatim>\<open>Demai\<close> arrives without a text, both have
  no document; \<^verbatim>\<open>Avot\<close> and \<^verbatim>\<open>Berakhot\<close> have theirs, the empty second chapter of
  \<^verbatim>\<open>Berakhot\<close> left out.
\<close>

theorem failed_sections_are_isolated_witness:
  "\<exists>texts docs.
      get_all_mishnah_texts fetcher sample_service = Inr texts
    \<and> notebook_documents sample_py_str sample_service = Inr docs
    \<and> map_of texts ''Peah'' = Some (JArr [])
    \<and> filter (\<lambda>d. md_tractate (doc_metadata d) = ''Peah'') docs = []
    \<and> filter (\<lambda>d. md_tractate (doc_metadata d) = ''Demai'') docs = []
    \<and> filter (\<lambda>d. md_tractate (doc_metadata d) = ''Avot'') docs =
         [\<lparr>doc_text = ''Mishnah 1: Who is wealthy?'',
           doc_metadata = \<lparr>md_tractate = ''Avot'', md_chapter = 1\<rparr>\<rparr>]
    \<and> filter (\<lambda>d. md_tractate (doc_metadata d) = ''Berakhot'') docs =
         [\<lparr>doc_text = ''Mishnah 1: From when\<newline>Mishnah 2: Until midnight'',
           doc_metadata = \<lparr>md_tractate = ''Berakhot'', md_chapter = 1\<rparr>\<rparr>,
          \<lparr>doc_text = ''Mishnah 1: One who was reading'',
           doc_metadata = \<lparr>md_tractate = ''Berakhot'', md_chapter = 3\<rparr>\<rparr>]"
proof -
  have h: "\<forall>t\<in>set (mishnah_tractates fetcher).
             service_error (sample_service (tractate_url t))
             \<or> (arrived (sample_service (tractate_url t))
                 \<and> chapters_iterable (text_field (sample_service (tractate_url t))))"
    by (simp add: fetcher_def MishnahFetcher_init_def service_error_def arrived_def
          text_field_def sample_service_def tractate_url_def chapters_iterable_def)
  have p: "''Peah'' \<in> set (mishnah_tractates fetcher)" "''Demai'' \<in> set (mishnah_tractates fetcher)"
    "''Avot'' \<in> set (mishnah_tractates fetcher)" "''Berakhot'' \<in> set (mishnah_tractates fetcher)"
    by (simp_all add: fetcher_def MishnahFetcher_init_def)
  have s: "service_error (sample_service (tractate_url ''Peah''))"
    "arrived (sample_service (tractate_url ''Demai''))"
    "arrived (sample_service (tractate_url ''Avot''))"
    "arrived (sample_service (tractate_url ''Berakhot''))"
    by (simp_all add: service_error_def arrived_def sample_service_def tractate_url_def)
  have e: "expected_documents sample_py_str ''Demai'' (text_field (sample_service (tractate_url ''Demai''))) = []"
    "expected_documents sample_py_str ''Avot'' (text_field (sample_service (tractate_url ''Avot''))) =
       [\<lparr>doc_text = ''Mishnah 1: Who is wealthy?'',
           doc_metadata = \<lparr>md_tractate = ''Avot'', md_chapter = 1\<rparr>\<rparr>]"
    "expected_documents sample_py_str ''Berakhot'' (text_field (sample_service (tractate_url ''Berakhot''))) =
         [\<lparr>doc_text = ''Mishnah 1: From when\<newline>Mishnah 2: Until midnight'',
           doc_metadata = \<lparr>md_tractate = ''Berakhot'', md_chapter = 1\<rparr>\<rparr>,
          \<lparr>doc_text = ''Mishnah 1: One who was reading'',
           doc_metadata = \<lparr>md_tractate = ''Berakhot'', md_chapter = 3\<rparr>\<rparr>]"
    by code_simp+
  from failed_sections_are_isolated [OF h, of sample_py_str]
  obtain texts docs where
    "get_all_mishnah_texts fetcher sample_service = Inr texts"
    "notebook_documents sample_py_str sample_service = Inr docs"
    and r: "\<forall>t\<in>set (mishnah_tractates fetcher).
              (service_error (sample_service (tractate_url t)) \<longrightarrow>
                  map_of texts t = Some (JArr [])
                \<and> filter (\<lambda>d. md_tractate (doc_metadata d) = t) docs = [])
            \<and> (arrived (sample_service (tractate_url t)) \<longrightarrow>
                  map_of texts t = Some (text_field (sample_service (tractate_url t)))
                \<and> filter (\<lambda>d. md_tractate (doc_metadata d) = t) docs
                    = expected_documents sample_py_str t (text_field (sample_service (tractate_url t))))"
    by blast
  moreover from r p(1) s(1) have "map_of texts ''Peah'' = Some (JArr [])"
    "filter (\<lambda>d. md_tractate (doc_metadata d) = ''Peah'') docs = []" by blast+
  moreover from r p(2) s(2) e(1) have "filter (\<lambda>d. md_tractate (doc_metadata d) = ''Demai'') docs = []"
    by metis
  moreover from r p(3) s(3) e(2) have "filter (\<lambda>d. md_tractate (doc_metadata d) = ''Avot'') docs =
         [\<lparr>doc_text = ''Mishnah 1: Who is wealthy?'',
           doc_metadata = \<lparr>md_tractate = ''Avot'', md_chapter = 1\<rparr>\<rparr>]"
    by metis
  moreover from r p(4) s(4) e(3) have "filter (\<lambda>d. md_tractate (doc_metadata d) = ''Berakhot'') docs =
         [\<lparr>doc_text = ''Mishnah 1: From when\<newline>Mishnah 2: Until midnight'',
           doc_metadata = \<lparr>md_tractate = ''Berakhot'', md_chapter = 1\<rparr>\<rparr>,
          \<lparr>doc_text = ''Mishnah 1: One who was reading'',
           doc_metadata = \<lparr>md_tractate = ''Berakhot'', md_chapter = 3\<rparr>\<rparr>]"
    by metis
  ultimately show ?thesis by blast
qed

text \<open>
  Without the hypothesis the claim fails in three ways. One tractate hits a
  transport failure and the others are answered with the array \<^verbatim>\<open>[]\<close>: the failed
  fetch returns the empty list, but \<^verbatim>\<open>get_all_mishnah_texts\<close> raises
  \<^verbatim>\<open>AttributeError\<close>. A tractate arrives with the chapter \<^verbatim>\<open>null\<close>: the fetches return
  and the row loop raises \<^verbatim>\<open>TypeError\<close>. And in the sample service \<^verbatim>\<open>Demai\<close> is fetched
  without any error, yet no document is built for it.
\<close>

theorem failed_sections_are_isolated_counterexample:
  "mixed_service (tractate_url ''Berakhot'') = Transport_Failure
   \<and> get_mishnah_tractate_text mixed_service ''Berakhot'' = Inr (JArr [])
   \<and> get_all_mishnah_texts fetcher mixed_service = Inl AttributeError
   \<and> notebook_documents sample_py_str mixed_service = Inl AttributeError
   \<and> get_mishnah_tractate_text null_chapter_service ''Oktzin'' = Inr (JArr [JNull])
   \<and> notebook_documents sample_py_str null_chapter_service = Inl TypeError
   \<and> get_mishnah_tractate_text sample_service ''Demai'' = Inr (JArr [])
   \<and> notebook_documents sample_py_str sample_service =
       Inr [\<lparr>doc_text = ''Mishnah 1: Who is wealthy?'',
             doc_metadata = \<lparr>md_tractate = ''Avot'', md_chapter = 1\<rparr>\<rparr>,
            \<lparr>doc_text = ''Mishnah 1: From when\<newline>Mishnah 2: Until midnight'',
             doc_metadata = \<lparr>md_tractate = ''Berakhot'', md_chapter = 1\<rparr>\<rparr>,
            \<lparr>doc_text = ''Mishnah 1: One who was reading'',
             doc_metadata = \<lparr>md_tractate = ''Berakhot'', md_chapter = 3\<rparr>\<rparr>]"
  by code_simp

end
